theory Spec2Isabelle
  imports Complex_Main
begin

section \<open>Run configuration and diagnostics\<close>

text \<open>
  The driver \<^verbatim>\<open>meshmaker.cpp\<close> reads its command line into a \<^verbatim>\<open>struct args\<close>,
  wires a chain of VTK filters according to it and asks a writer to write the result.
  The record below is that struct, field by field. The two \<^verbatim>\<open>float\<close> fields are
  modelled by the real number they denote; rounding to binary32, infinities and NaN are
  outside the model.
\<close>

record args =
  clevel :: real
  out_fn :: string
  map_fn :: string
  out_format :: string
  decimate :: int
  smooth :: int
  smooth_iter :: int
  target_reduction :: real
  ascii :: int
  uint64 :: int
  int32 :: int
  verbose :: int
  out_fn_full :: string

text \<open>The member initialisers of \<^verbatim>\<open>struct args\<close>.\<close>

definition default_args :: args where
  "default_args =
     \<lparr>clevel = 0, out_fn = ''out'', map_fn = '''', out_format = ''vtp'',
      decimate = 0, smooth = 0, smooth_iter = 20, target_reduction = 9 / 10,
      ascii = 0, uint64 = 0, int32 = 0, verbose = 0, out_fn_full = ''''\<rparr>"

text \<open>
  The exceptions a conversion can throw: \<^verbatim>\<open>std::invalid_argument\<close> and
  \<^verbatim>\<open>std::out_of_range\<close> from \<^verbatim>\<open>std::stof\<close> and \<^verbatim>\<open>std::stoi\<close>, and
  \<^verbatim>\<open>std::logic_error\<close> from building their \<^verbatim>\<open>std::string\<close> argument out of a null
  pointer. All three derive from \<^verbatim>\<open>std::exception\<close>. Then the lines the parser writes
  to \<^verbatim>\<open>cerr\<close>, one constructor for each output statement.
\<close>

datatype conv_error = InvalidArgument | OutOfRange | LogicError

datatype msg =
    ExceptionCaught conv_error
  | TargetOutOfRange real
  | UsageText
  | InputNotSpecified
  | WarnUInt64 string

subsection \<open>The library conversions\<close>

text \<open>
  \<^verbatim>\<open>std::stoi(s)\<close> is \<^verbatim>\<open>strtol\<close> in base ten followed by a range check: leading
  white space is skipped, one sign is accepted, the longest run of digits is converted
  and whatever follows is ignored. No digit gives \<^verbatim>\<open>std::invalid_argument\<close>, a value
  that does not fit a 32-bit \<^verbatim>\<open>int\<close> gives \<^verbatim>\<open>std::out_of_range\<close>.
\<close>

definition isspace :: "char \<Rightarrow> bool" where
  "isspace c = (c \<in> set [CHR '' '', CHR 0x09, CHR 0x0A, CHR 0x0B, CHR 0x0C, CHR 0x0D])"

definition isdigit :: "char \<Rightarrow> bool" where
  "isdigit c = (48 \<le> (of_char c :: nat) \<and> (of_char c :: nat) \<le> 57)"

fun decimal :: "nat \<Rightarrow> string \<Rightarrow> nat" where
  "decimal acc [] = acc"
| "decimal acc (c # cs) = decimal (10 * acc + (of_char c - 48)) cs"

fun split_sign :: "string \<Rightarrow> bool \<times> string" where
  "split_sign [] = (False, [])"
| "split_sign (c # cs) =
     (if c = CHR ''-'' then (True, cs)
      else if c = CHR ''+'' then (False, cs)
      else (False, c # cs))"

definition stoi :: "string \<Rightarrow> conv_error + int" where
  "stoi s =
     (let (neg, body) = split_sign (dropWhile isspace s);
          ds = takeWhile isdigit body;
          v = (if neg then - int (decimal 0 ds) else int (decimal 0 ds))
      in if ds = [] then Inl InvalidArgument
         else if v < - 2147483648 \<or> 2147483647 < v then Inl OutOfRange
         else Inr v)"

text \<open>
  \<^verbatim>\<open>std::stof\<close> is a parameter of the model: every definition below that converts a
  float takes the conversion as its first argument \<open>stof\<close>, and every theorem holds for
  each such function. For runs on concrete command lines the instance \<open>stof_fixed\<close>
  is used; it reads fixed-point decimal texts (sign, digits, optional fraction) and
  agrees with the library on those, up to rounding, and on texts that start with no
  number. Exponents, hexadecimal digits and the words for infinity and NaN, which the
  library also reads, are not part of the instance.
\<close>

type_synonym float_conv = "string \<Rightarrow> conv_error + real"

definition stof_fixed :: float_conv where
  "stof_fixed s =
     (let (neg, body) = split_sign (dropWhile isspace s);
          ip = takeWhile isdigit body;
          rest = dropWhile isdigit body;
          fp = (case rest of [] \<Rightarrow> [] | c # cs \<Rightarrow> if c = CHR ''.'' then takeWhile isdigit cs else []);
          v = real (decimal 0 ip) + real (decimal 0 fp) / 10 ^ length fp
      in if ip = [] \<and> fp = [] then Inl InvalidArgument
         else Inr (if neg then - v else v))"

section \<open>Argument parsing\<close>

text \<open>
  The state of \<^verbatim>\<open>parse_args\<close>: the struct being filled, the flag \<^verbatim>\<open>_abort\<close> and
  what has been written to \<^verbatim>\<open>cerr\<close> so far. The cursor \<^verbatim>\<open>i\<close> is passed beside it.
\<close>

record pstate =
  cargs :: args
  abort_flag :: int
  cerr :: "msg list"

definition init_state :: pstate where
  "init_state = \<lparr>cargs = default_args, abort_flag = 0, cerr = []\<rparr>"

definition report :: "msg \<Rightarrow> pstate \<Rightarrow> pstate" where
  "report m st = st\<lparr>cerr := cerr st @ [m]\<rparr>"

text \<open>
  The array \<^verbatim>\<open>argv\<close> holds the \<^verbatim>\<open>argc\<close> tokens of the command line, the program name
  first, and after them the null pointer: \<^verbatim>\<open>argv[argc]\<close> is an entry of the array and
  is null. The list \<open>argv\<close> of the model is the tokens; \<open>argv_at\<close> reads an entry,
  with \<open>None\<close> for the null pointer.
\<close>

definition argv_at :: "string list \<Rightarrow> nat \<Rightarrow> string option" where
  "argv_at argv k = (if k < length argv then Some (argv ! k) else None)"

text \<open>
  \<^verbatim>\<open>stof(argv[i+1])\<close> and \<^verbatim>\<open>stoi(argv[i+1])\<close> first build a \<^verbatim>\<open>std::string\<close> from
  the pointer, which throws \<^verbatim>\<open>std::logic_error\<close> for the null pointer, and then convert.
\<close>

definition convert :: "(string \<Rightarrow> conv_error + 'a) \<Rightarrow> string option \<Rightarrow> conv_error + 'a" where
  "convert f p = (case p of None \<Rightarrow> Inl LogicError | Some s \<Rightarrow> f s)"

text \<open>
  How the process can stop inside \<^verbatim>\<open>parse_args\<close>: a call of \<^verbatim>\<open>abort()\<close>, an
  exception nobody catches (which ends in \<^verbatim>\<open>std::terminate\<close>), or the assignment of
  the null pointer to the string \<^verbatim>\<open>out_fn\<close>, which takes the length of a string that
  is not there and ends the process with a memory fault.
\<close>

datatype halt = AbortCalled | UncaughtException conv_error | NullString

datatype step_result = Continue nat pstate | Halt halt pstate

text \<open>One iteration of the \<^verbatim>\<open>while (i < argc)\<close> loop, branch by branch.\<close>

definition step :: "float_conv \<Rightarrow> string list \<Rightarrow> nat \<Rightarrow> pstate \<Rightarrow> step_result" where
  "step stof argv i st =
     (let a = argv ! i in
      if a = ''-c'' \<or> a = ''--clevel'' then
        (case convert stof (argv_at argv (i + 1)) of
           Inr v \<Rightarrow> Continue (i + 2) (st\<lparr>cargs := (cargs st)\<lparr>clevel := v\<rparr>\<rparr>)
         | Inl e \<Rightarrow> Continue (i + 2) ((report (ExceptionCaught e) st)\<lparr>abort_flag := 1\<rparr>))
      else if a = ''-o'' \<or> a = ''--output'' then
        (case argv_at argv (i + 1) of
           Some v \<Rightarrow> Continue (i + 2) (st\<lparr>cargs := (cargs st)\<lparr>out_fn := v\<rparr>\<rparr>)
         | None \<Rightarrow> Halt NullString st)
      else if a = ''-S'' \<or> a = ''--stl'' then
        Continue (i + 1) (st\<lparr>cargs := (cargs st)\<lparr>out_format := ''stl''\<rparr>\<rparr>)
      else if a = ''-V'' \<or> a = ''--vtk'' then
        Continue (i + 1) (st\<lparr>cargs := (cargs st)\<lparr>out_format := ''vtk''\<rparr>\<rparr>)
      else if a = ''-X'' \<or> a = ''--vtp'' then
        Continue (i + 1) (st\<lparr>cargs := (cargs st)\<lparr>out_format := ''vtp''\<rparr>\<rparr>)
      else if a = ''-D'' \<or> a = ''--decimate'' then
        Continue (i + 1) (st\<lparr>cargs := (cargs st)\<lparr>decimate := 1\<rparr>\<rparr>)
      else if a = ''-s'' \<or> a = ''--smooth'' then
        Continue (i + 1) (st\<lparr>cargs := (cargs st)\<lparr>smooth := 1\<rparr>\<rparr>)
      else if a = ''-i'' \<or> a = ''--smooth-iter'' then
        (case convert stoi (argv_at argv (i + 1)) of
           Inr n \<Rightarrow> Continue (i + 1) (st\<lparr>cargs := (cargs st)\<lparr>smooth_iter := n\<rparr>\<rparr>)
         | Inl e \<Rightarrow> Halt (UncaughtException e) st)
      else if a = ''-t'' \<or> a = ''--target-reduction'' then
        (let st1 = (case convert stof (argv_at argv (i + 1)) of
                      Inr v \<Rightarrow> st\<lparr>cargs := (cargs st)\<lparr>target_reduction := v\<rparr>\<rparr>
                    | Inl e \<Rightarrow> (report (ExceptionCaught e) st)\<lparr>abort_flag := 1\<rparr>);
             t = target_reduction (cargs st1);
             st2 = (if t \<le> 0 \<or> t \<ge> 1
                    then (report (TargetOutOfRange t) st1)\<lparr>abort_flag := 1\<rparr>
                    else st1)
         in Continue (i + 2) st2)
      else if a = ''-A'' \<or> a = ''--ascii'' then
        Continue (i + 1) (st\<lparr>cargs := (cargs st)\<lparr>ascii := 1\<rparr>\<rparr>)
      else if a = ''-U'' \<or> a = ''--uint64'' then
        Continue (i + 1) (st\<lparr>cargs := (cargs st)\<lparr>uint64 := 1\<rparr>\<rparr>)
      else if a = ''-I'' \<or> a = ''--int32'' then
        Continue (i + 1) (st\<lparr>cargs := (cargs st)\<lparr>int32 := 1\<rparr>\<rparr>)
      else if a = ''-v'' \<or> a = ''--verbose'' then
        Continue (i + 1) (st\<lparr>cargs := (cargs st)\<lparr>verbose := 1\<rparr>\<rparr>)
      else if a = ''-h'' \<or> a = ''--help'' then
        Halt AbortCalled (report UsageText st)
      else
        Continue (i + 1) (st\<lparr>cargs := (cargs st)\<lparr>map_fn := a\<rparr>\<rparr>))"

text \<open>The loop: it runs while the cursor is below \<^verbatim>\<open>argc\<close>, the length of \<open>argv\<close>.\<close>

datatype loop_result = LoopDone pstate | LoopHalt halt pstate

function parse_loop :: "float_conv \<Rightarrow> string list \<Rightarrow> nat \<Rightarrow> pstate \<Rightarrow> loop_result" where
  "parse_loop stof argv i st =
     (if i < length argv then
        (case step stof argv i st of
           Continue j st' \<Rightarrow> parse_loop stof argv j st'
         | Halt h st' \<Rightarrow> LoopHalt h st')
      else LoopDone st)"
  by pat_completeness auto
termination
  by (relation "measure (\<lambda>(stof, argv, i, st). length argv - i)")
     (auto simp: step_def Let_def split: if_splits sum.splits option.splits)

text \<open>
  What \<^verbatim>\<open>parse_args\<close> does after the loop: the full output name, the check for the
  input file, the warning about the header width, and \<^verbatim>\<open>abort()\<close> if \<^verbatim>\<open>_abort\<close>
  is set. The function either returns the struct or the process stops in it; both carry
  what was written to \<^verbatim>\<open>cerr\<close>.
\<close>

datatype parse_result = Returned args "msg list" | Halted halt "msg list"

definition finish :: "pstate \<Rightarrow> parse_result" where
  "finish st =
     (let st1 = st\<lparr>cargs := (cargs st)\<lparr>out_fn_full := out_fn (cargs st) @ ''.'' @ out_format (cargs st)\<rparr>\<rparr>;
          st2 = (if map_fn (cargs st1) = ''''
                 then (report InputNotSpecified st1)\<lparr>abort_flag := 1\<rparr>
                 else st1);
          st3 = (if uint64 (cargs st2) = 1 \<and> out_format (cargs st2) \<noteq> ''vtp''
                 then report (WarnUInt64 (out_format (cargs st2))) st2
                 else st2)
      in if abort_flag st3 \<noteq> 0 then Halted AbortCalled (cerr st3)
         else Returned (cargs st3) (cerr st3))"

definition after_loop :: "loop_result \<Rightarrow> parse_result" where
  "after_loop r = (case r of LoopDone st \<Rightarrow> finish st | LoopHalt h st \<Rightarrow> Halted h (cerr st))"

definition parse_args :: "float_conv \<Rightarrow> string list \<Rightarrow> parse_result" where
  "parse_args stof argv = after_loop (parse_loop stof argv 1 init_state)"


text \<open>
  The positions the cursor takes, each with the state the loop has there: the loop head is
  evaluated at cursor \<open>i\<close> in state \<open>st\<close> exactly when \<open>(i, st)\<close> is in this list.
\<close>

function visited :: "float_conv \<Rightarrow> string list \<Rightarrow> nat \<Rightarrow> pstate \<Rightarrow> (nat \<times> pstate) list" where
  "visited stof argv i st =
     (if i < length argv then
        (i, st) # (case step stof argv i st of
                     Continue j st' \<Rightarrow> visited stof argv j st'
                   | Halt h st' \<Rightarrow> [])
      else [])"
  by pat_completeness auto
termination
  by (relation "measure (\<lambda>(stof, argv, i, st). length argv - i)")
     (auto simp: step_def Let_def split: if_splits sum.splits option.splits)

definition reaches :: "float_conv \<Rightarrow> string list \<Rightarrow> nat \<Rightarrow> pstate \<Rightarrow> bool" where
  "reaches stof argv i st = ((i, st) \<in> set (visited stof argv 1 init_state))"

text \<open>The spellings the \<^verbatim>\<open>strcmp\<close> chain compares with; four of the options read a value.\<close>

definition value_options :: "string list" where
  "value_options =
     [''-c'', ''--clevel'', ''-o'', ''--output'', ''-i'', ''--smooth-iter'',
      ''-t'', ''--target-reduction'']"

definition flag_options :: "string list" where
  "flag_options =
     [''-S'', ''--stl'', ''-V'', ''--vtk'', ''-X'', ''--vtp'', ''-D'', ''--decimate'',
      ''-s'', ''--smooth'', ''-A'', ''--ascii'', ''-U'', ''--uint64'', ''-I'', ''--int32'',
      ''-v'', ''--verbose'', ''-h'', ''--help'']"

definition recognized :: "string \<Rightarrow> bool" where
  "recognized a = (a \<in> set (value_options @ flag_options))"

text \<open>
  The positional tokens of a command line, read the way the usage text describes it and
  without regard to the loop: going through the tokens, an option that takes a value
  takes the next token with it, a flag stands alone, and every other token is positional.
  \<open>positional_tokens\<close> leaves the program name out.
\<close>

fun positionals :: "string list \<Rightarrow> string list" where
  "positionals [] = []"
| "positionals [a] = (if recognized a then [] else [a])"
| "positionals (a # b # as) =
     (if a \<in> set value_options then positionals as
      else if recognized a then positionals (b # as)
      else a # positionals (b # as))"

definition positional_tokens :: "string list \<Rightarrow> string list" where
  "positional_tokens argv = positionals (drop 1 argv)"

definition log_of :: "parse_result \<Rightarrow> msg list" where
  "log_of r = (case r of Returned c l \<Rightarrow> l | Halted h l \<Rightarrow> l)"

section \<open>The driver\<close>

text \<open>
  \<^verbatim>\<open>main\<close> creates the VTK objects and calls their setters; the model records the calls
  in the order of the source, together with the lines written to \<^verbatim>\<open>cout\<close>. The three
  writers live in separate branches of the source, each under the name \<^verbatim>\<open>writer\<close>.
\<close>

datatype vtk_obj =
  reader | cfilt | tfilt | sfilt | dfilt | strip | stl_writer | vtk_writer | vtp_writer

datatype out_msg =
    ReadingFile string
  | RunningContour real
  | RunningTriangle
  | RunningSmoothing int
  | RunningDecimation real
  | GeneratingStrips
  | WritingOutput string
  | UsingUInt64
  | UsingUInt32

text \<open>
  \<open>SetInputConnection d s\<close> stands for \<^verbatim>\<open>d->SetInputConnection(s->GetOutputPort())\<close>.
  \<open>Write w rv\<close> is the call \<^verbatim>\<open>w->Write()\<close> together with the value \<open>rv\<close> the
  library returns from it (1 when the file was written, 0 when it could not be).
\<close>

datatype event =
    Cout out_msg
  | SetFileName vtk_obj string
  | SetInputConnection vtk_obj vtk_obj
  | SetValue nat real
  | SetNumberOfIterations int
  | SetTargetReduction real
  | PreserveTopologyOn
  | SetMaximumLength int
  | SetFileTypeToASCII vtk_obj
  | SetFileTypeToBinary vtk_obj
  | SetIdTypeToInt32
  | SetIdTypeToInt64
  | SetDataModeToAscii
  | SetDataModeToBinary
  | SetHeaderTypeToUInt64
  | SetHeaderTypeToUInt32
  | Write vtk_obj int

definition say :: "args \<Rightarrow> out_msg \<Rightarrow> event list" where
  "say c m = (if verbose c \<noteq> 0 then [Cout m] else [])"

text \<open>Reader and contour filter.\<close>

definition read_and_contour :: "args \<Rightarrow> event list" where
  "read_and_contour c =
     say c (ReadingFile (map_fn c)) @ [SetFileName reader (map_fn c)] @
     say c (RunningContour (clevel c)) @
     [SetInputConnection cfilt reader, SetValue 0 (clevel c)]"

text \<open>Triangle filter, smoothing and decimation: the block under \<^verbatim>\<open>decimate || smooth\<close>.\<close>

definition triangulate_smooth_decimate :: "args \<Rightarrow> event list" where
  "triangulate_smooth_decimate c =
     (if decimate c \<noteq> 0 \<or> smooth c \<noteq> 0 then
        say c RunningTriangle @ [SetInputConnection tfilt cfilt] @
        (if smooth c \<noteq> 0 then
           say c (RunningSmoothing (smooth_iter c)) @
           [SetInputConnection sfilt tfilt, SetNumberOfIterations (smooth_iter c)]
         else []) @
        (if decimate c \<noteq> 0 then
           say c (RunningDecimation (target_reduction c)) @
           [if smooth c \<noteq> 0 then SetInputConnection dfilt sfilt
            else SetInputConnection dfilt tfilt,
            SetTargetReduction (target_reduction c),
            PreserveTopologyOn]
         else [])
      else [])"

text \<open>Triangle strips.\<close>

definition triangle_strips :: "args \<Rightarrow> event list" where
  "triangle_strips c =
     say c GeneratingStrips @
     [if decimate c \<noteq> 0 \<or> smooth c \<noteq> 0 then
        (if decimate c \<noteq> 0 then SetInputConnection strip dfilt
         else SetInputConnection strip sfilt)
      else SetInputConnection strip cfilt,
      SetMaximumLength 1000]"

text \<open>
  The writer, chosen by the output format. In the last branch the call
  \<^verbatim>\<open>SetHeaderTypeToUInt32()\<close> stands after the \<^verbatim>\<open>if\<close>/\<^verbatim>\<open>else\<close> statement, whose
  \<^verbatim>\<open>else\<close> part is only the verbose output, so it is made in every run of that branch.
\<close>

definition write_output :: "int \<Rightarrow> args \<Rightarrow> event list" where
  "write_output rv c =
     say c (WritingOutput (out_fn_full c)) @
     (if out_format c = ''stl'' then
        [SetInputConnection stl_writer strip,
         SetFileName stl_writer (out_fn_full c),
         if ascii c \<noteq> 0 then SetFileTypeToASCII stl_writer else SetFileTypeToBinary stl_writer,
         Write stl_writer rv]
      else if out_format c = ''vtk'' then
        [SetFileName vtk_writer (out_fn_full c),
         SetInputConnection vtk_writer strip,
         if ascii c \<noteq> 0 then SetFileTypeToASCII vtk_writer else SetFileTypeToBinary vtk_writer,
         Write vtk_writer rv]
      else if out_format c = ''vtp'' then
        [SetFileName vtp_writer (out_fn_full c),
         SetInputConnection vtp_writer strip,
         if int32 c \<noteq> 0 then SetIdTypeToInt32 else SetIdTypeToInt64,
         if ascii c \<noteq> 0 then SetDataModeToAscii else SetDataModeToBinary] @
        (if uint64 c \<noteq> 0 then say c UsingUInt64 @ [SetHeaderTypeToUInt64]
         else say c UsingUInt32) @
        [SetHeaderTypeToUInt32, Write vtp_writer rv]
      else [])"

definition main_body :: "int \<Rightarrow> args \<Rightarrow> event list" where
  "main_body rv c =
     read_and_contour c @ triangulate_smooth_decimate c @ triangle_strips c @ write_output rv c"

text \<open>
  A run of the program: what it did, what it wrote to \<^verbatim>\<open>cerr\<close> and how it ended.
  \<^verbatim>\<open>main\<close> ends with \<^verbatim>\<open>return EXIT_SUCCESS\<close> whenever \<^verbatim>\<open>parse_args\<close> returns; the
  value of \<^verbatim>\<open>Write()\<close> is not looked at.
\<close>

datatype proc_end = Exit int | Killed halt

record run =
  events :: "event list"
  cerr_log :: "msg list"
  ended :: proc_end

definition EXIT_SUCCESS :: int where
  "EXIT_SUCCESS = 0"

definition main :: "float_conv \<Rightarrow> int \<Rightarrow> string list \<Rightarrow> run" where
  "main stof rv argv =
     (case parse_args stof argv of
        Returned c l \<Rightarrow> \<lparr>events = main_body rv c, cerr_log = l, ended = Exit EXIT_SUCCESS\<rparr>
      | Halted h l \<Rightarrow> \<lparr>events = [], cerr_log = l, ended = Killed h\<rparr>)"

text \<open>
  A process that \<^verbatim>\<open>abort()\<close> ends, directly or through \<^verbatim>\<open>std::terminate\<close>, is killed by
  SIGABRT, and one that ends with a memory fault by SIGSEGV; its caller sees either as a
  non-zero status.
\<close>

definition nonzero_status :: "proc_end \<Rightarrow> bool" where
  "nonzero_status e = (case e of Exit n \<Rightarrow> n \<noteq> 0 | Killed h \<Rightarrow> True)"

text \<open>
  The wiring the calls leave behind: the input of an object is the source of its last
  \<open>SetInputConnection\<close>; the stream of an object is the chain of inputs that ends in it,
  source first.
\<close>

fun connections :: "event list \<Rightarrow> (vtk_obj \<times> vtk_obj) list" where
  "connections [] = []"
| "connections (SetInputConnection d s # es) = (d, s) # connections es"
| "connections (e # es) = connections es"

definition input_of :: "event list \<Rightarrow> vtk_obj \<Rightarrow> vtk_obj option" where
  "input_of evs d = map_of (rev (connections evs)) d"

fun upstream :: "nat \<Rightarrow> event list \<Rightarrow> vtk_obj \<Rightarrow> vtk_obj list" where
  "upstream 0 evs d = [d]"
| "upstream (Suc n) evs d =
     (case input_of evs d of None \<Rightarrow> [d] | Some s \<Rightarrow> upstream n evs s @ [d])"

definition stream :: "event list \<Rightarrow> vtk_obj \<Rightarrow> vtk_obj list" where
  "stream evs w = upstream (length (connections evs)) evs w"

definition writer_of :: "args \<Rightarrow> vtk_obj" where
  "writer_of c =
     (if out_format c = ''stl'' then stl_writer
      else if out_format c = ''vtk'' then vtk_writer
      else vtp_writer)"

text \<open>The values passed to \<^verbatim>\<open>SetTargetReduction\<close>, in the order of the calls.\<close>

fun target_reductions :: "event list \<Rightarrow> real list" where
  "target_reductions [] = []"
| "target_reductions (SetTargetReduction t # es) = t # target_reductions es"
| "target_reductions (e # es) = target_reductions es"

section \<open>Properties of the parsing loop\<close>

declare parse_loop.simps [simp del] visited.simps [simp del]

lemma visited_loop:
  "(j, st') \<in> set (visited stof argv i st) \<Longrightarrow>
     parse_loop stof argv j st' = parse_loop stof argv i st"
proof (induction stof argv i st rule: visited.induct)
  case (1 stof argv i st)
  show ?case
  proof (cases "i < length argv")
    case False
    with "1.prems" show ?thesis by (simp add: visited.simps)
  next
    case True
    show ?thesis
    proof (cases "step stof argv i st")
      case (Continue k st'')
      from "1.prems" True Continue
      have "(j, st') = (i, st) \<or> (j, st') \<in> set (visited stof argv k st'')"
        by (subst (asm) visited.simps) simp
      then show ?thesis
      proof
        assume "(j, st') = (i, st)"
        then show ?thesis by simp
      next
        assume "(j, st') \<in> set (visited stof argv k st'')"
        then have "parse_loop stof argv j st' = parse_loop stof argv k st''"
          using "1.IH" [OF True Continue] by simp
        also have "\<dots> = parse_loop stof argv i st"
          using True Continue by (simp add: parse_loop.simps [of stof argv i st])
        finally show ?thesis .
      qed
    next
      case (Halt h st'')
      from "1.prems" True Halt have "(j, st') = (i, st)"
        by (subst (asm) visited.simps) simp
      then show ?thesis by simp
    qed
  qed
qed

lemma reaches_loop:
  "reaches stof argv i st \<Longrightarrow> parse_args stof argv = after_loop (parse_loop stof argv i st)"
  by (simp add: reaches_def parse_args_def visited_loop)

lemma visited_unfold:
  "(j, st') \<in> set (visited stof argv i st) \<Longrightarrow>
     i < length argv \<and>
     ((j, st') = (i, st) \<or>
      (\<exists>k s. step stof argv i st = Continue k s \<and> (j, st') \<in> set (visited stof argv k s)))"
  by (subst (asm) visited.simps) (auto split: if_splits step_result.splits)

lemma visited_less: "(j, st') \<in> set (visited stof argv i st) \<Longrightarrow> j < length argv"
proof (induction stof argv i st rule: visited.induct)
  case (1 stof argv i st)
  from visited_unfold [OF "1.prems"] "1.IH" show ?case by auto
qed

lemma visited_self: "i < length argv \<Longrightarrow> (i, st) \<in> set (visited stof argv i st)"
  by (subst visited.simps) simp

lemma visited_next:
  "(i, st) \<in> set (visited stof argv k s) \<Longrightarrow> step stof argv i st = Continue j st' \<Longrightarrow>
     j < length argv \<Longrightarrow> (j, st') \<in> set (visited stof argv k s)"
proof (induction stof argv k s rule: visited.induct)
  case (1 stof argv k s)
  from visited_unfold [OF "1.prems"(1)]
  have lt: "k < length argv"
    and alt: "(i, st) = (k, s) \<or>
      (\<exists>k' s'. step stof argv k s = Continue k' s' \<and> (i, st) \<in> set (visited stof argv k' s'))"
    by auto
  from alt show ?case
  proof
    assume "(i, st) = (k, s)"
    with "1.prems" lt show ?thesis
      by (subst visited.simps) (simp add: visited_self)
  next
    assume "\<exists>k' s'. step stof argv k s = Continue k' s' \<and> (i, st) \<in> set (visited stof argv k' s')"
    then obtain k' s' where c: "step stof argv k s = Continue k' s'"
      and m: "(i, st) \<in> set (visited stof argv k' s')" by blast
    from "1.IH" [OF lt c m "1.prems"(2,3)] lt c show ?thesis
      by (subst visited.simps) simp
  qed
qed





lemma finish_abort:
  "abort_flag st \<noteq> 0 \<Longrightarrow> m \<in> set (cerr st) \<Longrightarrow>
     \<exists>l. finish st = Halted AbortCalled l \<and> m \<in> set l"
  by (simp add: finish_def Let_def report_def)




lemmas run_defs =
  parse_args_def after_loop_def step_def init_state_def default_args_def finish_def
  report_def stof_fixed_def stoi_def isspace_def isdigit_def convert_def argv_at_def
  parse_loop.simps
  visited.simps reaches_def main_def

lemma reaches_less: "reaches stof argv i st \<Longrightarrow> i < length argv"
  by (auto simp: reaches_def dest: visited_less)

lemma reaches_next:
  "reaches stof argv i st \<Longrightarrow> step stof argv i st = Continue j st' \<Longrightarrow> j < length argv \<Longrightarrow>
     reaches stof argv j st'"
  unfolding reaches_def by (rule visited_next)

lemma reaches_halt:
  "reaches stof argv i st \<Longrightarrow> step stof argv i st = Halt h st' \<Longrightarrow>
     parse_args stof argv = Halted h (cerr st')"
  by (simp add: reaches_loop reaches_less parse_loop.simps [of stof argv i st] after_loop_def)

lemma stoi_rejects_options: "recognized a \<Longrightarrow> stoi a = Inl InvalidArgument"
  by (auto simp: recognized_def value_options_def flag_options_def stoi_def isspace_def isdigit_def)

lemma step_positional:
  "\<not> recognized (argv ! i) \<Longrightarrow>
     step stof argv i st = Continue (i + 1) (st\<lparr>cargs := (cargs st)\<lparr>map_fn := argv ! i\<rparr>\<rparr>)"
  by (simp add: step_def recognized_def value_options_def flag_options_def Let_def)

lemma step_option_map_fn_case:
  assumes "recognized (argv ! i)"
  shows "case step stof argv i st of
           Continue j st' \<Rightarrow> map_fn (cargs st') = map_fn (cargs st)
         | Halt h st' \<Rightarrow> True"
  using assms unfolding recognized_def value_options_def flag_options_def
  by (auto simp: step_def Let_def report_def convert_def split: sum.splits option.splits)

lemma step_option_map_fn:
  "recognized (argv ! i) \<Longrightarrow> step stof argv i st = Continue j st' \<Longrightarrow>
     map_fn (cargs st') = map_fn (cargs st)"
  using step_option_map_fn_case [where argv = argv and i = i and stof = stof and st = st] by simp

lemma finish_map_fn: "finish st = Returned c l \<Longrightarrow> map_fn c = map_fn (cargs st)"
  by (auto simp: finish_def Let_def report_def split: if_splits)

lemma step_format:
  "step stof argv i st = Continue j st' \<Longrightarrow>
     out_format (cargs st) \<in> {''stl'', ''vtk'', ''vtp''} \<Longrightarrow>
     out_format (cargs st') \<in> {''stl'', ''vtk'', ''vtp''}"
  by (auto simp: step_def Let_def report_def convert_def split: if_splits sum.splits option.splits)

lemma loop_format:
  "parse_loop stof argv i st = LoopDone st' \<Longrightarrow>
     out_format (cargs st) \<in> {''stl'', ''vtk'', ''vtp''} \<Longrightarrow>
     out_format (cargs st') \<in> {''stl'', ''vtk'', ''vtp''}"
proof (induction stof argv i st rule: parse_loop.induct)
  case (1 stof argv i st)
  show ?case
  proof (cases "i < length argv")
    case False
    with "1.prems" show ?thesis by (simp add: parse_loop.simps [of stof argv i])
  next
    case True
    show ?thesis
    proof (cases "step stof argv i st")
      case (Continue j s)
      from "1.prems"(1) True Continue have "parse_loop stof argv j s = LoopDone st'"
        by (simp add: parse_loop.simps [of stof argv i st])
      from "1.IH" [OF True Continue this step_format [OF Continue "1.prems"(2)]]
      show ?thesis .
    next
      case (Halt h s)
      with "1.prems" True show ?thesis by (simp add: parse_loop.simps [of stof argv i st])
    qed
  qed
qed

lemma finish_format: "finish st = Returned c l \<Longrightarrow> out_format c = out_format (cargs st)"
  by (auto simp: finish_def Let_def report_def split: if_splits)

lemma parse_args_format:
  assumes "parse_args stof argv = Returned c l"
  shows "out_format c \<in> {''stl'', ''vtk'', ''vtp''}"
proof (cases "parse_loop stof argv 1 init_state")
  case (LoopDone st)
  have "out_format (cargs init_state) \<in> {''stl'', ''vtk'', ''vtp''}"
    by (simp add: init_state_def default_args_def)
  from loop_format [OF LoopDone this] assms LoopDone show ?thesis
    by (auto simp: parse_args_def after_loop_def dest: finish_format)
next
  case (LoopHalt h st)
  with assms show ?thesis by (simp add: parse_args_def after_loop_def)
qed

lemma main_returned:
  "parse_args stof argv = Returned c l \<Longrightarrow>
     main stof rv argv = \<lparr>events = main_body rv c, cerr_log = l, ended = Exit EXIT_SUCCESS\<rparr>"
  by (simp add: main_def)

lemma connections_append: "connections (xs @ ys) = connections xs @ connections ys"
  by (induction xs rule: connections.induct) simp_all

lemma connections_say: "connections (say c m) = []"
  by (simp add: say_def)

lemma stream_main_body:
  assumes "out_format c \<in> {''stl'', ''vtk'', ''vtp''}"
  shows "stream (main_body rv c) (writer_of c) =
           [reader, cfilt]
           @ (if decimate c \<noteq> 0 \<or> smooth c \<noteq> 0 then [tfilt] else [])
           @ (if smooth c \<noteq> 0 then [sfilt] else [])
           @ (if decimate c \<noteq> 0 then [dfilt] else [])
           @ [strip, writer_of c]"
  using assms
  by (cases "decimate c = 0"; cases "smooth c = 0")
     (auto simp: stream_def main_body_def read_and_contour_def triangulate_smooth_decimate_def
        triangle_strips_def write_output_def writer_of_def input_of_def
        connections_append connections_say)

lemma tfilt_input:
  "input_of (main_body rv c) tfilt =
     (if decimate c \<noteq> 0 \<or> smooth c \<noteq> 0 then Some cfilt else None)"
  by (cases "decimate c = 0"; cases "smooth c = 0")
     (auto simp: main_body_def read_and_contour_def triangulate_smooth_decimate_def
        triangle_strips_def write_output_def input_of_def
        connections_append connections_say)

lemma target_reductions_append:
  "target_reductions (xs @ ys) = target_reductions xs @ target_reductions ys"
  by (induction xs rule: target_reductions.induct) simp_all

lemma target_reductions_say: "target_reductions (say c m) = []"
  by (simp add: say_def)

lemma last_event_is_write:
  "out_format c \<in> {''stl'', ''vtk'', ''vtp''} \<Longrightarrow>
     last (main_body rv c) = Write (writer_of c) rv"
  by (auto simp: main_body_def write_output_def writer_of_def)

lemma main_body_ignores_uint64:
  "out_format c \<noteq> ''vtp'' \<Longrightarrow> main_body rv (c\<lparr>uint64 := u\<rparr>) = main_body rv c"
  by (simp add: main_body_def read_and_contour_def triangulate_smooth_decimate_def
      triangle_strips_def write_output_def say_def)

lemma step_cursor_case:
  assumes "argv ! i \<noteq> ''-i''" and "argv ! i \<noteq> ''--smooth-iter''"
  shows "case step stof argv i st of
           Continue j s \<Rightarrow> j = (if argv ! i \<in> set value_options then i + 2 else i + 1)
         | Halt h s \<Rightarrow> True"
proof (cases "recognized (argv ! i)")
  case True
  with assms show ?thesis
    unfolding recognized_def value_options_def flag_options_def
    by (auto simp: step_def Let_def convert_def split: sum.splits option.splits)
next
  case False
  then have "argv ! i \<notin> set value_options" by (simp add: recognized_def)
  with step_positional [OF False, of stof st] show ?thesis by simp
qed

lemma step_cursor:
  "argv ! i \<noteq> ''-i'' \<Longrightarrow> argv ! i \<noteq> ''--smooth-iter'' \<Longrightarrow>
     step stof argv i st = Continue j s \<Longrightarrow>
     j = (if argv ! i \<in> set value_options then i + 2 else i + 1)"
  using step_cursor_case [where argv = argv and i = i and stof = stof and st = st] by simp

lemma positionals_Cons:
  "positionals (a # rest) =
     (if a \<in> set value_options then positionals (drop 1 rest)
      else if recognized a then positionals rest
      else a # positionals rest)"
  by (cases rest) (auto simp: recognized_def)

lemma positionals_drop:
  "i < length argv \<Longrightarrow>
     positionals (drop i argv) =
       (if argv ! i \<in> set value_options then positionals (drop (i + 2) argv)
        else if recognized (argv ! i) then positionals (drop (i + 1) argv)
        else argv ! i # positionals (drop (i + 1) argv))"
  using positionals_Cons [of "argv ! i" "drop (Suc i) argv"]
  by (simp add: Cons_nth_drop_Suc)

lemma loop_map_fn:
  "parse_loop stof argv i st = LoopDone st' \<Longrightarrow>
     ''-i'' \<notin> set argv \<Longrightarrow> ''--smooth-iter'' \<notin> set argv \<Longrightarrow>
     map_fn (cargs st') =
       (if positionals (drop i argv) = [] then map_fn (cargs st)
        else last (positionals (drop i argv)))"
proof (induction stof argv i st rule: parse_loop.induct)
  case (1 stof argv i st)
  show ?case
  proof (cases "i < length argv")
    case False
    with "1.prems"(1) show ?thesis
      by (simp add: parse_loop.simps [of stof argv i])
  next
    case True
    from True "1.prems"(2,3) have ni: "argv ! i \<noteq> ''-i''" "argv ! i \<noteq> ''--smooth-iter''"
      by (auto dest: nth_mem)
    show ?thesis
    proof (cases "step stof argv i st")
      case (Continue j s)
      from "1.prems"(1) True Continue have "parse_loop stof argv j s = LoopDone st'"
        by (simp add: parse_loop.simps [of stof argv i st])
      from "1.IH" [OF True Continue this "1.prems"(2,3)]
      have ih: "map_fn (cargs st') =
          (if positionals (drop j argv) = [] then map_fn (cargs s)
           else last (positionals (drop j argv)))" .
      note j = step_cursor [OF ni Continue]
      show ?thesis
      proof (cases "recognized (argv ! i)")
        case True
        with ih j step_option_map_fn [OF True Continue] positionals_drop [OF \<open>i < length argv\<close>]
        show ?thesis by (simp split: if_splits)
      next
        case False
        then have nv: "argv ! i \<notin> set value_options" by (simp add: recognized_def)
        from step_positional [OF False, of stof st] Continue
        have "map_fn (cargs s) = argv ! i" by auto
        with ih j nv False positionals_drop [OF \<open>i < length argv\<close>]
        show ?thesis by simp
      qed
    next
      case (Halt h s)
      with "1.prems"(1) True show ?thesis
        by (simp add: parse_loop.simps [of stof argv i st])
    qed
  qed
qed

lemma loop_step:
  "i < length argv \<Longrightarrow> step stof argv i st = Continue j s \<Longrightarrow>
     parse_loop stof argv i st = parse_loop stof argv j s"
  by (subst parse_loop.simps) simp

lemma loop_done: "\<not> i < length argv \<Longrightarrow> parse_loop stof argv i st = LoopDone st"
  by (subst parse_loop.simps) simp

section \<open>Claims\<close>

text \<open>
  C1, as amended. In every run in which \<^verbatim>\<open>parse_args\<close> returns, the stream that ends in
  the writer is reader, contour filter, then the triangle filter if smoothing or
  decimation is enabled, then the smoothing filter if smoothing is enabled, then the
  decimation filter if decimation is enabled, then the stripper and the writer. So with
  both enabled the smoothing filter feeds the decimation filter. The triangle filter
  receives the output of the contour filter exactly when smoothing or decimation is
  enabled; otherwise it has no input and the stripper reads the contour filter.
\<close>

theorem pipeline_order:
  assumes "parse_args stof argv = Returned c l"
  shows "stream (events (main stof rv argv)) (writer_of c) =
           [reader, cfilt]
           @ (if decimate c \<noteq> 0 \<or> smooth c \<noteq> 0 then [tfilt] else [])
           @ (if smooth c \<noteq> 0 then [sfilt] else [])
           @ (if decimate c \<noteq> 0 then [dfilt] else [])
           @ [strip, writer_of c]
         \<and> input_of (events (main stof rv argv)) tfilt =
             (if decimate c \<noteq> 0 \<or> smooth c \<noteq> 0 then Some cfilt else None)"
  using stream_main_body [OF parse_args_format [OF assms], of rv] tfilt_input [of rv c]
  by (simp add: main_returned [OF assms])

theorem pipeline_order_witness:
  "parse_args stof_fixed [''meshmaker'', ''-s'', ''-D'', ''a.map''] =
     Returned (default_args\<lparr>smooth := 1, decimate := 1, map_fn := ''a.map'',
                 out_fn_full := ''out.vtp''\<rparr>) []
   \<and> stream (events (main stof_fixed 1 [''meshmaker'', ''-s'', ''-D'', ''a.map''])) vtp_writer =
       [reader, cfilt, tfilt, sfilt, dfilt, strip, vtp_writer]"
proof -
  let ?argv = "[''meshmaker'', ''-s'', ''-D'', ''a.map'']"
  let ?c = "default_args\<lparr>smooth := 1, decimate := 1, map_fn := ''a.map'',
              out_fn_full := ''out.vtp''\<rparr>"
  have p: "parse_args stof_fixed ?argv = Returned ?c []"
    by (simp add: run_defs)
  from pipeline_order [OF p, of 1] p show ?thesis
    by (simp add: writer_of_def default_args_def)
qed

text \<open>
  C1 as stated says that the triangle filter receives the output of the contour filter in
  every run. In the run of \<^verbatim>\<open>meshmaker a.map\<close> it has no input at all.
\<close>

theorem triangle_filter_unconnected_counterexample:
  "input_of (events (main stof_fixed 1 [''meshmaker'', ''a.map''])) tfilt = None
   \<and> stream (events (main stof_fixed 1 [''meshmaker'', ''a.map''])) vtp_writer =
       [reader, cfilt, strip, vtp_writer]"
  by (simp add: run_defs main_body_def read_and_contour_def triangulate_smooth_decimate_def
      triangle_strips_def write_output_def say_def input_of_def stream_def)

text \<open>
  C2, as amended. In every run in which \<^verbatim>\<open>parse_args\<close> returns, the call of
  \<^verbatim>\<open>Write()\<close> is the last call \<^verbatim>\<open>main\<close> makes, and whatever it returns the process
  ends with \<^verbatim>\<open>EXIT_SUCCESS\<close>: the driver does not look at the outcome of the write.
\<close>

theorem exit_status_ignores_write:
  assumes "parse_args stof argv = Returned c l"
  shows "last (events (main stof rv argv)) = Write (writer_of c) rv
         \<and> ended (main stof rv argv) = Exit 0"
  using last_event_is_write [OF parse_args_format [OF assms], of rv]
  by (simp add: main_returned [OF assms] EXIT_SUCCESS_def)

theorem exit_status_ignores_write_witness:
  "parse_args stof_fixed [''meshmaker'', ''-S'', ''a.map''] =
     Returned (default_args\<lparr>out_format := ''stl'', map_fn := ''a.map'',
                 out_fn_full := ''out.stl''\<rparr>) []
   \<and> last (events (main stof_fixed 0 [''meshmaker'', ''-S'', ''a.map''])) = Write stl_writer 0
   \<and> ended (main stof_fixed 0 [''meshmaker'', ''-S'', ''a.map'']) = Exit 0"
proof -
  let ?argv = "[''meshmaker'', ''-S'', ''a.map'']"
  have p: "parse_args stof_fixed ?argv =
     Returned (default_args\<lparr>out_format := ''stl'', map_fn := ''a.map'',
                 out_fn_full := ''out.stl''\<rparr>) []"
    by (simp add: run_defs)
  from exit_status_ignores_write [OF p, of 0] p show ?thesis
    by (simp add: writer_of_def)
qed

text \<open>
  C2 as stated says that the process ends with a non-zero status when the destination
  cannot be written. In the run of \<^verbatim>\<open>meshmaker a.map\<close> in which \<^verbatim>\<open>Write()\<close> returns 0,
  the status is 0.
\<close>

theorem failed_write_exit_counterexample:
  "last (events (main stof_fixed 0 [''meshmaker'', ''a.map''])) = Write vtp_writer 0
   \<and> ended (main stof_fixed 0 [''meshmaker'', ''a.map'']) = Exit 0
   \<and> \<not> nonzero_status (ended (main stof_fixed 0 [''meshmaker'', ''a.map'']))"
  by (simp add: run_defs main_body_def write_output_def EXIT_SUCCESS_def nonzero_status_def)

text \<open>
  C3. The run of \<^verbatim>\<open>meshmaker -i abc\<close>: the value of \<^verbatim>\<open>-i\<close> is no number and no input
  file is named. \<^verbatim>\<open>stoi\<close> throws where nothing catches, so the process ends there with
  nothing reported and the check for the input file never made. The run of
  \<^verbatim>\<open>meshmaker -c abc\<close> shows what the branches with a \<^verbatim>\<open>try\<close> block do with the same
  mistake: both errors are reported before \<^verbatim>\<open>abort()\<close>.
\<close>

theorem malformed_smooth_iter_not_collected:
  "main stof_fixed 1 [''meshmaker'', ''-i'', ''abc''] =
     \<lparr>events = [], cerr_log = [], ended = Killed (UncaughtException InvalidArgument)\<rparr>
   \<and> main stof_fixed 1 [''meshmaker'', ''-c'', ''abc''] =
     \<lparr>events = [], cerr_log = [ExceptionCaught InvalidArgument, InputNotSpecified],
      ended = Killed AbortCalled\<rparr>"
  by (simp add: run_defs)



text \<open>
  C5. In every run in which \<^verbatim>\<open>parse_args\<close> returns with decimation enabled, the
  decimation filter is given the target reduction of the configuration, and no other,
  \<^verbatim>\<open>PreserveTopologyOn()\<close> is called, and the decimation filter is part of the stream
  that is written: the stripper reads it.
\<close>

theorem decimation_settings:
  assumes "parse_args stof argv = Returned c l"
    and "decimate c \<noteq> 0"
  shows "target_reductions (events (main stof rv argv)) = [target_reduction c]
         \<and> PreserveTopologyOn \<in> set (events (main stof rv argv))
         \<and> input_of (events (main stof rv argv)) strip = Some dfilt
         \<and> dfilt \<in> set (stream (events (main stof rv argv)) (writer_of c))"
proof -
  have e: "events (main stof rv argv) = main_body rv c"
    by (simp add: main_returned [OF assms(1)])
  have a: "target_reductions (main_body rv c) = [target_reduction c]"
    using assms(2)
    by (simp add: main_body_def read_and_contour_def triangulate_smooth_decimate_def
        triangle_strips_def write_output_def target_reductions_append target_reductions_say)
  have b: "PreserveTopologyOn \<in> set (main_body rv c)"
    using assms(2) by (simp add: main_body_def triangulate_smooth_decimate_def)
  have d: "input_of (main_body rv c) strip = Some dfilt"
    using assms(2)
    by (cases "smooth c = 0")
       (auto simp: main_body_def read_and_contour_def triangulate_smooth_decimate_def
          triangle_strips_def write_output_def input_of_def connections_append connections_say)
  have s: "dfilt \<in> set (stream (main_body rv c) (writer_of c))"
    using assms(2) stream_main_body [OF parse_args_format [OF assms(1)], of rv] by simp
  from e a b d s show ?thesis by simp
qed

theorem decimation_settings_witness:
  "parse_args stof_fixed [''meshmaker'', ''-D'', ''-t'', ''0.5'', ''a.map''] =
     Returned (default_args\<lparr>decimate := 1, target_reduction := 1 / 2, map_fn := ''a.map'',
                 out_fn_full := ''out.vtp''\<rparr>) []
   \<and> target_reductions (events (main stof_fixed 1 [''meshmaker'', ''-D'', ''-t'', ''0.5'', ''a.map'']))
       = [1 / 2]
   \<and> PreserveTopologyOn
       \<in> set (events (main stof_fixed 1 [''meshmaker'', ''-D'', ''-t'', ''0.5'', ''a.map'']))"
proof -
  let ?argv = "[''meshmaker'', ''-D'', ''-t'', ''0.5'', ''a.map'']"
  have p: "parse_args stof_fixed ?argv =
     Returned (default_args\<lparr>decimate := 1, target_reduction := 1 / 2, map_fn := ''a.map'',
                 out_fn_full := ''out.vtp''\<rparr>) []"
    by (simp add: run_defs)
  from decimation_settings [OF p, of 1] p show ?thesis by simp
qed

text \<open>
  C6, as amended. Whenever the parser meets \<^verbatim>\<open>-h\<close> or \<^verbatim>\<open>--help\<close> as an option, that
  is, whenever the loop stands on it, \<^verbatim>\<open>print_usage\<close> writes the usage text and
  \<^verbatim>\<open>abort()\<close> ends the process at once: no call on the pipeline is made, and the process
  ends with a non-zero status.
\<close>

theorem help_prints_usage_and_aborts:
  assumes "reaches stof argv i st"
    and "argv ! i = ''-h'' \<or> argv ! i = ''--help''"
  shows "main stof rv argv =
           \<lparr>events = [], cerr_log = cerr st @ [UsageText], ended = Killed AbortCalled\<rparr>
         \<and> nonzero_status (ended (main stof rv argv))"
proof -
  from assms(2) have "step stof argv i st = Halt AbortCalled (report UsageText st)"
    by (auto simp: step_def)
  from reaches_halt [OF assms(1) this]
  have "parse_args stof argv = Halted AbortCalled (cerr st @ [UsageText])"
    by (simp add: report_def)
  then show ?thesis by (simp add: main_def nonzero_status_def)
qed

theorem help_prints_usage_and_aborts_witness:
  "reaches stof_fixed [''meshmaker'', ''a.map'', ''-h''] 2
       (init_state\<lparr>cargs := default_args\<lparr>map_fn := ''a.map''\<rparr>\<rparr>)
   \<and> main stof_fixed 1 [''meshmaker'', ''a.map'', ''-h''] =
       \<lparr>events = [], cerr_log = [UsageText], ended = Killed AbortCalled\<rparr>"
proof -
  let ?argv = "[''meshmaker'', ''a.map'', ''-h'']"
  let ?st = "init_state\<lparr>cargs := default_args\<lparr>map_fn := ''a.map''\<rparr>\<rparr>"
  have r1: "reaches stof_fixed ?argv 1 init_state"
    by (simp add: reaches_def visited_self)
  have "step stof_fixed ?argv 1 init_state = Continue 2 ?st"
    by (simp add: step_def init_state_def)
  from reaches_next [OF r1 this] have r: "reaches stof_fixed ?argv 2 ?st" by simp
  from help_prints_usage_and_aborts [OF r, of 1] r show ?thesis
    by (simp add: init_state_def)
qed

text \<open>
  C6 as stated speaks of every command line that contains a help flag. In
  \<^verbatim>\<open>meshmaker -o -h a.map\<close> the token \<^verbatim>\<open>-h\<close> is the value of \<^verbatim>\<open>-o\<close>: no usage text is
  written, the pipeline runs to the write and the status is 0.
\<close>

theorem help_token_as_value_counterexample:
  "UsageText \<notin> set (cerr_log (main stof_fixed 1 [''meshmaker'', ''-o'', ''-h'', ''a.map'']))
   \<and> last (events (main stof_fixed 1 [''meshmaker'', ''-o'', ''-h'', ''a.map''])) =
       Write vtp_writer 1
   \<and> ended (main stof_fixed 1 [''meshmaker'', ''-o'', ''-h'', ''a.map'']) = Exit 0"
  by (simp add: run_defs main_body_def write_output_def EXIT_SUCCESS_def)

text \<open>
  C7. When the loop ends with 64-bit headers requested and an output format other than
  \<^verbatim>\<open>vtp\<close>, a warning is written; the warning itself does not stop the run, which
  proceeds exactly if no error was flagged and an input file is named; and the calls
  \<^verbatim>\<open>main\<close> then makes are those of the same configuration without the request.
\<close>

theorem uint64_without_vtp_is_a_warning:
  assumes "parse_loop stof argv 1 init_state = LoopDone st"
    and "uint64 (cargs st) = 1"
    and "out_format (cargs st) \<noteq> ''vtp''"
  shows "WarnUInt64 (out_format (cargs st)) \<in> set (log_of (parse_args stof argv))
         \<and> ((\<exists>c l. parse_args stof argv = Returned c l) =
              (abort_flag st = 0 \<and> map_fn (cargs st) \<noteq> ''''))
         \<and> (\<forall>c l. parse_args stof argv = Returned c l \<longrightarrow>
               main stof rv argv =
                 \<lparr>events = main_body rv (c\<lparr>uint64 := 0\<rparr>), cerr_log = l, ended = Exit 0\<rparr>)"
proof -
  have pa: "parse_args stof argv = finish st"
    by (simp only: parse_args_def assms(1)) (simp add: after_loop_def)
  have a: "WarnUInt64 (out_format (cargs st)) \<in> set (log_of (finish st))"
    using assms(2,3) by (simp add: finish_def Let_def report_def log_of_def)
  have b: "(\<exists>c l. finish st = Returned c l) = (abort_flag st = 0 \<and> map_fn (cargs st) \<noteq> '''')"
    by (simp add: finish_def Let_def report_def)
  have d: "main stof rv argv =
             \<lparr>events = main_body rv (c\<lparr>uint64 := 0\<rparr>), cerr_log = l, ended = Exit 0\<rparr>"
    if r: "parse_args stof argv = Returned c l" for c l
  proof -
    from r pa have "out_format c \<noteq> ''vtp''"
      using assms(3) by (auto dest: finish_format)
    from main_body_ignores_uint64 [OF this, of rv 0] show ?thesis
      by (simp add: main_returned [OF r] EXIT_SUCCESS_def)
  qed
  from a b d pa show ?thesis by auto
qed

theorem uint64_without_vtp_is_a_warning_witness:
  "parse_loop stof_fixed [''meshmaker'', ''-U'', ''-S'', ''a.map''] 1 init_state =
     LoopDone (init_state\<lparr>cargs := default_args\<lparr>uint64 := 1, out_format := ''stl'',
                                                map_fn := ''a.map''\<rparr>\<rparr>)
   \<and> parse_args stof_fixed [''meshmaker'', ''-U'', ''-S'', ''a.map''] =
       Returned (default_args\<lparr>uint64 := 1, out_format := ''stl'', map_fn := ''a.map'',
                   out_fn_full := ''out.stl''\<rparr>) [WarnUInt64 ''stl'']
   \<and> events (main stof_fixed 1 [''meshmaker'', ''-U'', ''-S'', ''a.map'']) =
       events (main stof_fixed 1 [''meshmaker'', ''-S'', ''a.map''])"
proof -
  let ?argv = "[''meshmaker'', ''-U'', ''-S'', ''a.map'']"
  let ?st = "init_state\<lparr>cargs := default_args\<lparr>uint64 := 1, out_format := ''stl'',
                                         map_fn := ''a.map''\<rparr>\<rparr>"
  have l: "parse_loop stof_fixed ?argv 1 init_state = LoopDone ?st"
    by (simp add: parse_loop.simps step_def init_state_def default_args_def)
  have p: "parse_args stof_fixed ?argv =
       Returned (default_args\<lparr>uint64 := 1, out_format := ''stl'', map_fn := ''a.map'',
                   out_fn_full := ''out.stl''\<rparr>) [WarnUInt64 ''stl'']"
    by (simp only: parse_args_def l)
       (simp add: after_loop_def finish_def init_state_def default_args_def report_def)
  have q: "parse_args stof_fixed [''meshmaker'', ''-S'', ''a.map''] =
       Returned (default_args\<lparr>out_format := ''stl'', map_fn := ''a.map'',
                   out_fn_full := ''out.stl''\<rparr>) []"
    by (simp add: run_defs)
  from uint64_without_vtp_is_a_warning [OF l, of 1] l p q show ?thesis
    by (simp add: init_state_def default_args_def main_returned)
qed

text \<open>
  C8, as amended. On a command line without \<^verbatim>\<open>-i\<close> and \<^verbatim>\<open>--smooth-iter\<close>, in every
  run in which the loop goes through to the end, the input file name is the last
  positional token, a positional token being one that is neither a recognized option nor
  the value of one; each positional token the loop stands on overwrites the name, without
  any message. A token that looks like a flag but is none of the recognized spellings,
  such as \<^verbatim>\<open>-z\<close>, is positional.
\<close>

theorem last_positional_token_is_input:
  assumes "parse_loop stof argv 1 init_state = LoopDone st"
    and "''-i'' \<notin> set argv"
    and "''--smooth-iter'' \<notin> set argv"
    and "positional_tokens argv \<noteq> []"
  shows "map_fn (cargs st) = last (positional_tokens argv)
         \<and> (\<forall>c l. parse_args stof argv = Returned c l \<longrightarrow>
               map_fn c = last (positional_tokens argv))
         \<and> (\<forall>k s. reaches stof argv k s \<and> \<not> recognized (argv ! k) \<longrightarrow>
               step stof argv k s =
                 Continue (k + 1) (s\<lparr>cargs := (cargs s)\<lparr>map_fn := argv ! k\<rparr>\<rparr>))
         \<and> \<not> recognized ''-z''"
proof -
  from loop_map_fn [OF assms(1-3)] assms(4)
  have a: "map_fn (cargs st) = last (positional_tokens argv)"
    by (simp add: positional_tokens_def)
  have b: "map_fn c = last (positional_tokens argv)"
    if "parse_args stof argv = Returned c l" for c l
    using that assms(1) a by (auto simp: parse_args_def after_loop_def dest: finish_map_fn)
  have d: "\<not> recognized ''-z''"
    by (simp add: recognized_def value_options_def flag_options_def)
  from a b d step_positional show ?thesis by blast
qed

theorem last_positional_token_is_input_witness:
  "parse_loop stof_fixed [''meshmaker'', ''a.map'', ''-o'', ''x'', ''-z'', ''-D'', ''b.map''] 1
       init_state =
     LoopDone (init_state\<lparr>cargs := default_args\<lparr>map_fn := ''b.map'', out_fn := ''x'',
                                                decimate := 1\<rparr>\<rparr>)
   \<and> positional_tokens [''meshmaker'', ''a.map'', ''-o'', ''x'', ''-z'', ''-D'', ''b.map''] =
       [''a.map'', ''-z'', ''b.map'']
   \<and> parse_args stof_fixed [''meshmaker'', ''a.map'', ''-o'', ''x'', ''-z'', ''-D'', ''b.map''] =
       Returned (default_args\<lparr>map_fn := ''b.map'', out_fn := ''x'', decimate := 1,
                   out_fn_full := ''x.vtp''\<rparr>) []"
proof -
  let ?argv = "[''meshmaker'', ''a.map'', ''-o'', ''x'', ''-z'', ''-D'', ''b.map'']"
  let ?st = "init_state\<lparr>cargs := default_args\<lparr>map_fn := ''b.map'', out_fn := ''x'',
                                         decimate := 1\<rparr>\<rparr>"
  have l: "parse_loop stof_fixed ?argv 1 init_state = LoopDone ?st"
    by (simp add: parse_loop.simps step_def argv_at_def init_state_def default_args_def)
  have p: "positional_tokens ?argv = [''a.map'', ''-z'', ''b.map'']"
    by (simp add: positional_tokens_def recognized_def value_options_def flag_options_def)
  have r: "parse_args stof_fixed ?argv =
       Returned (default_args\<lparr>map_fn := ''b.map'', out_fn := ''x'', decimate := 1,
                   out_fn_full := ''x.vtp''\<rparr>) []"
    by (simp only: parse_args_def l)
       (simp add: after_loop_def finish_def init_state_def default_args_def)
  from last_positional_token_is_input [OF l] l p r show ?thesis by simp
qed

text \<open>
  C8 as stated holds for every command line. In \<^verbatim>\<open>meshmaker a.map b.map -i 5\<close> the
  positional tokens are \<^verbatim>\<open>a.map\<close> and \<^verbatim>\<open>b.map\<close>, and the input file name becomes
  \<^verbatim>\<open>5\<close>, the value of \<^verbatim>\<open>-i\<close>.
\<close>

theorem smooth_iter_value_as_input_counterexample:
  "positional_tokens [''meshmaker'', ''a.map'', ''b.map'', ''-i'', ''5''] = [''a.map'', ''b.map'']
   \<and> parse_args stof_fixed [''meshmaker'', ''a.map'', ''b.map'', ''-i'', ''5''] =
       Returned (default_args\<lparr>map_fn := ''5'', smooth_iter := 5, out_fn_full := ''out.vtp''\<rparr>) []"
  by (simp add: run_defs positional_tokens_def recognized_def value_options_def flag_options_def)

text \<open>
  C9, as amended. The branch for \<^verbatim>\<open>-i\<close> and \<^verbatim>\<open>--smooth-iter\<close> moves the cursor by one
  token only. Whenever the parser meets the option followed by a token \<open>N\<close>: if
  \<^verbatim>\<open>stoi\<close> converts \<open>N\<close>, the next iteration stands on \<open>N\<close> itself, finds no option
  in it and stores it as the input file name, and the run goes on from the token after
  \<open>N\<close> with that name; if \<^verbatim>\<open>stoi\<close> throws, the process ends at once and \<open>N\<close> is not
  read again.
\<close>

theorem smooth_iter_value_parsed_again:
  assumes "reaches stof argv i st"
    and "argv ! i = ''-i'' \<or> argv ! i = ''--smooth-iter''"
    and "i + 1 < length argv"
  shows "case stoi (argv ! (i + 1)) of
           Inr n \<Rightarrow>
             step stof argv i st = Continue (i + 1) (st\<lparr>cargs := (cargs st)\<lparr>smooth_iter := n\<rparr>\<rparr>)
             \<and> reaches stof argv (i + 1) (st\<lparr>cargs := (cargs st)\<lparr>smooth_iter := n\<rparr>\<rparr>)
             \<and> step stof argv (i + 1) (st\<lparr>cargs := (cargs st)\<lparr>smooth_iter := n\<rparr>\<rparr>) =
                 Continue (i + 2)
                   (st\<lparr>cargs := (cargs st)\<lparr>smooth_iter := n, map_fn := argv ! (i + 1)\<rparr>\<rparr>)
             \<and> parse_args stof argv =
                 after_loop (parse_loop stof argv (i + 2)
                   (st\<lparr>cargs := (cargs st)\<lparr>smooth_iter := n, map_fn := argv ! (i + 1)\<rparr>\<rparr>))
         | Inl e \<Rightarrow> parse_args stof argv = Halted (UncaughtException e) (cerr st)"
proof (cases "stoi (argv ! (i + 1))")
  case (Inl e)
  from assms(2,3) Inl have "step stof argv i st = Halt (UncaughtException e) st"
    by (auto simp: step_def convert_def argv_at_def)
  from reaches_halt [OF assms(1) this] Inl show ?thesis by simp
next
  case (Inr n)
  let ?st1 = "st\<lparr>cargs := (cargs st)\<lparr>smooth_iter := n\<rparr>\<rparr>"
  let ?st2 = "st\<lparr>cargs := (cargs st)\<lparr>smooth_iter := n, map_fn := argv ! (i + 1)\<rparr>\<rparr>"
  from assms(2,3) Inr have s1: "step stof argv i st = Continue (i + 1) ?st1"
    by (auto simp: step_def convert_def argv_at_def)
  from reaches_next [OF assms(1) s1 assms(3)] have r: "reaches stof argv (i + 1) ?st1" .
  from Inr stoi_rejects_options [of "argv ! (i + 1)"]
  have "\<not> recognized (argv ! (i + 1))" by auto
  from step_positional [OF this, of stof ?st1]
  have s2: "step stof argv (i + 1) ?st1 = Continue (i + 2) ?st2" by simp
  from loop_step [OF assms(3) s2]
  have "parse_loop stof argv (i + 1) ?st1 = parse_loop stof argv (i + 2) ?st2" .
  with reaches_loop [OF r]
  have "parse_args stof argv = after_loop (parse_loop stof argv (i + 2) ?st2)" by simp
  with s1 r s2 Inr show ?thesis by simp
qed

theorem smooth_iter_value_parsed_again_witness:
  "reaches stof_fixed [''meshmaker'', ''-i'', ''5''] 1 init_state
   \<and> stoi ''5'' = Inr 5
   \<and> parse_args stof_fixed [''meshmaker'', ''-i'', ''5''] =
       Returned (default_args\<lparr>smooth_iter := 5, map_fn := ''5'', out_fn_full := ''out.vtp''\<rparr>) []"
proof -
  let ?argv = "[''meshmaker'', ''-i'', ''5'']"
  have r: "reaches stof_fixed ?argv 1 init_state"
    by (simp add: reaches_def visited_self)
  have v: "stoi (?argv ! (1 + 1)) = Inr 5"
    by (simp add: stoi_def isspace_def isdigit_def)
  let ?st2 = "init_state\<lparr>cargs := (cargs init_state)\<lparr>smooth_iter := 5, map_fn := ''5''\<rparr>\<rparr>"
  from smooth_iter_value_parsed_again [OF r] v
  have "parse_args stof_fixed ?argv = after_loop (parse_loop stof_fixed ?argv (1 + 2) ?st2)"
    by simp
  moreover have "parse_loop stof_fixed ?argv (1 + 2) ?st2 = LoopDone ?st2"
    by (rule loop_done) simp
  ultimately have "parse_args stof_fixed ?argv =
       Returned (default_args\<lparr>smooth_iter := 5, map_fn := ''5'', out_fn_full := ''out.vtp''\<rparr>) []"
    by (simp add: after_loop_def finish_def init_state_def default_args_def)
  with r v show ?thesis by simp
qed

text \<open>
  C9 as stated holds for every command line in which a token follows \<^verbatim>\<open>-i\<close>. In
  \<^verbatim>\<open>meshmaker -i abc a.map\<close> the loop stands on \<^verbatim>\<open>-i\<close> only: the process ends there, and
  the token \<^verbatim>\<open>abc\<close> is not read again and names no input file.
\<close>

theorem smooth_iter_value_not_number_counterexample:
  "visited stof_fixed [''meshmaker'', ''-i'', ''abc'', ''a.map''] 1 init_state = [(1, init_state)]
   \<and> main stof_fixed 1 [''meshmaker'', ''-i'', ''abc'', ''a.map''] =
       \<lparr>events = [], cerr_log = [], ended = Killed (UncaughtException InvalidArgument)\<rparr>"
  by (simp add: run_defs)

text \<open>
  C10, as amended. Whenever the parser meets one of the options that take a value, it
  reads \<^verbatim>\<open>argv[i+1]\<close>, an entry of the array. The entry is a token exactly when the
  option is not the last token; for the last token it is the null pointer that ends the
  array. In that case the branch of \<^verbatim>\<open>-o\<close> assigns the null pointer to a string and the
  process ends there; the branch of \<^verbatim>\<open>-i\<close> ends the process with the exception nobody
  catches; the branches of \<^verbatim>\<open>-c\<close> and \<^verbatim>\<open>-t\<close> catch the exception, report it and set
  \<^verbatim>\<open>_abort\<close>, and \<^verbatim>\<open>parse_args\<close> calls \<^verbatim>\<open>abort()\<close> after the loop.
\<close>

theorem value_option_as_last_token_reads_null:
  assumes "reaches stof argv i st"
    and "argv ! i \<in> set value_options"
  shows "i + 1 \<le> length argv
         \<and> (argv_at argv (i + 1) = None) = (i + 1 = length argv)
         \<and> (i + 1 = length argv \<longrightarrow>
              (if argv ! i = ''-o'' \<or> argv ! i = ''--output''
               then parse_args stof argv = Halted NullString (cerr st)
               else if argv ! i = ''-i'' \<or> argv ! i = ''--smooth-iter''
               then parse_args stof argv = Halted (UncaughtException LogicError) (cerr st)
               else (\<exists>l. parse_args stof argv = Halted AbortCalled l
                         \<and> ExceptionCaught LogicError \<in> set l)))"
proof -
  from reaches_less [OF assms(1)] have lt: "i < length argv" .
  have a: "(argv_at argv (i + 1) = None) = (i + 1 = length argv)"
    using lt by (auto simp: argv_at_def)
  have b: "if argv ! i = ''-o'' \<or> argv ! i = ''--output''
           then parse_args stof argv = Halted NullString (cerr st)
           else if argv ! i = ''-i'' \<or> argv ! i = ''--smooth-iter''
           then parse_args stof argv = Halted (UncaughtException LogicError) (cerr st)
           else (\<exists>l. parse_args stof argv = Halted AbortCalled l
                     \<and> ExceptionCaught LogicError \<in> set l)"
    if last: "i + 1 = length argv"
  proof -
    from last have n: "argv_at argv (i + 1) = None" by (simp add: argv_at_def)
    consider (o) "argv ! i = ''-o'' \<or> argv ! i = ''--output''"
      | (i) "argv ! i = ''-i'' \<or> argv ! i = ''--smooth-iter''"
      | (ct) "argv ! i = ''-c'' \<or> argv ! i = ''--clevel'' \<or> argv ! i = ''-t''
               \<or> argv ! i = ''--target-reduction''"
      using assms(2) by (auto simp: value_options_def)
    then show ?thesis
    proof cases
      case o
      with n have "step stof argv i st = Halt NullString st" by (auto simp: step_def)
      from reaches_halt [OF assms(1) this] o show ?thesis by simp
    next
      case i
      with n have "step stof argv i st = Halt (UncaughtException LogicError) st"
        by (auto simp: step_def convert_def)
      from reaches_halt [OF assms(1) this] i show ?thesis by auto
    next
      case ct
      with n have "\<exists>s. step stof argv i st = Continue (i + 2) s \<and> abort_flag s \<noteq> 0
                    \<and> ExceptionCaught LogicError \<in> set (cerr s)"
        by (auto simp: step_def convert_def report_def Let_def)
      then obtain s where s: "step stof argv i st = Continue (i + 2) s"
        and f: "abort_flag s \<noteq> 0" and m: "ExceptionCaught LogicError \<in> set (cerr s)" by blast
      from last have "parse_loop stof argv (i + 2) s = LoopDone s"
        by (intro loop_done) simp
      with loop_step [OF lt s] have "parse_loop stof argv i st = LoopDone s" by simp
      with reaches_loop [OF assms(1)] have "parse_args stof argv = finish s"
        by (simp add: after_loop_def)
      with finish_abort [OF f m] ct show ?thesis by auto
    qed
  qed
  from lt a b show ?thesis by simp
qed

theorem value_option_as_last_token_reads_null_witness:
  "reaches stof_fixed [''meshmaker'', ''a.map'', ''-t''] 2
       (init_state\<lparr>cargs := default_args\<lparr>map_fn := ''a.map''\<rparr>\<rparr>)
   \<and> argv_at [''meshmaker'', ''a.map'', ''-t''] (2 + 1) = None
   \<and> parse_args stof_fixed [''meshmaker'', ''a.map'', ''-t''] =
       Halted AbortCalled [ExceptionCaught LogicError]"
proof -
  let ?argv = "[''meshmaker'', ''a.map'', ''-t'']"
  let ?st = "init_state\<lparr>cargs := default_args\<lparr>map_fn := ''a.map''\<rparr>\<rparr>"
  have r1: "reaches stof_fixed ?argv 1 init_state"
    by (simp add: reaches_def visited_self)
  have "step stof_fixed ?argv 1 init_state = Continue 2 ?st"
    by (simp add: step_def init_state_def)
  from reaches_next [OF r1 this] have r: "reaches stof_fixed ?argv 2 ?st" by simp
  have p: "parse_args stof_fixed ?argv = Halted AbortCalled [ExceptionCaught LogicError]"
    by (simp add: run_defs)
  from value_option_as_last_token_reads_null [OF r] r p show ?thesis
    by (simp add: value_options_def)
qed

text \<open>
  C10 as stated says that a command line that ends in one of these options ends in a
  read outside the array. In \<^verbatim>\<open>meshmaker -c\<close> the entry read is the null pointer at
  \<^verbatim>\<open>argv[argc]\<close>; the exception is caught and reported, the loop ends, the missing input
  file is reported as well and \<^verbatim>\<open>abort()\<close> is called. In \<^verbatim>\<open>meshmaker a.map -o -c\<close> the
  last token is the value of \<^verbatim>\<open>-o\<close>, the loop never stands on it and
  \<^verbatim>\<open>parse_args\<close> returns.
\<close>

theorem value_option_as_last_token_counterexample:
  "argv_at [''meshmaker'', ''-c''] 2 = None
   \<and> parse_args stof_fixed [''meshmaker'', ''-c''] =
       Halted AbortCalled [ExceptionCaught LogicError, InputNotSpecified]
   \<and> parse_args stof_fixed [''meshmaker'', ''a.map'', ''-o'', ''-c''] =
       Returned (default_args\<lparr>map_fn := ''a.map'', out_fn := ''-c'', out_fn_full := ''-c.vtp''\<rparr>) []"
  by (simp add: run_defs)

end
